theory Spec2Isabelle
  imports Main "HOL-Library.Word"
begin

unbundle bit_operations_syntax

section \<open>Machine integers, packet buffers and verdicts\<close>

text \<open>
  The filter programs work on the kernel types \<^verbatim>\<open>__u8\<close>, \<^verbatim>\<open>__u16\<close>, \<^verbatim>\<open>__u32\<close> and
  \<^verbatim>\<open>__u64\<close>; all arithmetic on them wraps around. A packet is the byte range
  \<^verbatim>\<open>[data, data_end)\<close>: a list of bytes, addressed by offsets from \<^verbatim>\<open>data\<close>. A pointer
  comparison \<^verbatim>\<open>(void *)(hdr + 1) > data_end\<close> is the comparison of the offset just behind the
  header with the length of the list.
\<close>

type_synonym u8 = "8 word"
type_synonym u16 = "16 word"
type_synonym u32 = "32 word"
type_synonym u64 = "64 word"
type_synonym packet = "u8 list"

datatype xdp_action = XDP_ABORTED | XDP_DROP | XDP_PASS | XDP_TX | XDP_REDIRECT


text \<open>Sizes of the kernel header structs the programs compare against \<^verbatim>\<open>data_end\<close>.\<close>

definition ETH_HLEN :: nat where "ETH_HLEN = 14"
definition IPHDR_SIZE :: nat where "IPHDR_SIZE = 20"
definition TCPHDR_SIZE :: nat where "TCPHDR_SIZE = 20"

definition PROTO_TCP :: u8 where "PROTO_TCP = 6"
definition ETH_P_IP :: u16 where "ETH_P_IP = 0x0800"

text \<open>
  Field reads. A 16-bit field in network byte order read through \<^verbatim>\<open>bpf_ntohs\<close> is the
  big-endian value of its two bytes; a 32-bit field read without conversion (\<^verbatim>\<open>ip->saddr\<close>,
  the token word of the auth check) is the value a little-endian host loads (the eBPF
  targets of the repository are little-endian). The readers are only called below an offset
  the caller has compared with the length of the buffer, as in the source.
\<close>

definition be16 :: "packet \<Rightarrow> nat \<Rightarrow> u16" where
  "be16 p off = push_bit 8 (ucast (p ! off)) OR ucast (p ! (off + 1))"

definition load32 :: "packet \<Rightarrow> nat \<Rightarrow> u32" where
  "load32 p off =
     ucast (p ! off) OR push_bit 8 (ucast (p ! (off + 1)))
       OR push_bit 16 (ucast (p ! (off + 2))) OR push_bit 24 (ucast (p ! (off + 3)))"

text \<open>\<^verbatim>\<open>eth->h_proto\<close> converted to host order; the Ethernet header starts at offset 0.\<close>

definition eth_h_proto :: "packet \<Rightarrow> u16" where
  "eth_h_proto p = be16 p 12"


definition ip_ihl :: "packet \<Rightarrow> nat \<Rightarrow> u8" where
  "ip_ihl p off = (p ! off) AND 0x0F"

definition ip_protocol :: "packet \<Rightarrow> nat \<Rightarrow> u8" where
  "ip_protocol p off = p ! (off + 9)"

definition ip_saddr :: "packet \<Rightarrow> nat \<Rightarrow> u32" where
  "ip_saddr p off = load32 p (off + 12)"

definition ip_daddr :: "packet \<Rightarrow> nat \<Rightarrow> u32" where
  "ip_daddr p off = load32 p (off + 16)"


definition l4_dest :: "packet \<Rightarrow> nat \<Rightarrow> u16" where
  "l4_dest p off = be16 p (off + 2)"

definition tcp_doff :: "packet \<Rightarrow> nat \<Rightarrow> u8" where
  "tcp_doff p off = drop_bit 4 (p ! (off + 12))"

section \<open>The XDP rate limiter (proxy-egress/ebpf/src/rate\_limit.c)\<close>

record rate_limit_config =
  enabled :: u32
  global_pps_limit :: u32
  per_ip_pps_limit :: u32
  window_size_ns :: u32
  burst_allowance :: u32
  action :: u32

record ip_rate_state =
  ip_last_update_ns :: u64
  ip_packet_count :: u32
  ip_total_packets :: u32
  ip_dropped_packets :: u32
  burst_tokens :: u32

record global_rate_state =
  g_last_update_ns :: u64
  g_packet_count :: u32
  g_total_packets :: u32
  g_dropped_packets :: u32

record rate_limit_stats =
  st_total_packets :: u64
  st_passed_packets :: u64
  st_dropped_packets :: u64
  rate_limited_ips :: u64
  global_drops :: u64
  per_ip_drops :: u64

text \<open>
  The BPF maps of the program. The four one-element arrays are looked up at key 0 only and
  are modelled by the (optional) element the lookup returns; the per-IP map is keyed by the
  source address. Fields that several structs of the file share by name carry a prefix
  (\<open>ip_\<close>, \<open>g_\<close>, \<open>st_\<close>).
\<close>

record rl_maps =
  rate_limit_config_map :: "rate_limit_config option"
  ip_rate_state_map :: "u32 \<rightharpoonup> ip_rate_state"
  global_rate_state_map :: "global_rate_state option"
  rate_limit_stats_map :: "rate_limit_stats option"
  enterprise_license_map :: "u32 option"

text \<open>\<^verbatim>\<open>parse_ipv4\<close>: \<open>None\<close> is the return value -1, \<open>Some (src_ip, dst_ip)\<close> is 0.\<close>

definition parse_ipv4 :: "packet \<Rightarrow> (u32 \<times> u32) option" where
  "parse_ipv4 p =
     (if ETH_HLEN > length p then None
      else if eth_h_proto p \<noteq> ETH_P_IP then None
      else if ETH_HLEN + IPHDR_SIZE > length p then None
      else Some (ip_saddr p ETH_HLEN, ip_daddr p ETH_HLEN))"

definition zero_ip_rate_state :: ip_rate_state where
  "zero_ip_rate_state =
     \<lparr>ip_last_update_ns = 0, ip_packet_count = 0, ip_total_packets = 0,
      ip_dropped_packets = 0, burst_tokens = 0\<rparr>"

definition check_ip_rate_limit ::
  "rate_limit_config \<Rightarrow> u32 \<Rightarrow> u64 \<Rightarrow> (u32 \<rightharpoonup> ip_rate_state)
     \<Rightarrow> xdp_action \<times> (u32 \<rightharpoonup> ip_rate_state)" where
  "check_ip_rate_limit config src_ip now_ns m =
     (case m src_ip of
        None \<Rightarrow>
          (XDP_PASS,
           m(src_ip \<mapsto> zero_ip_rate_state
               \<lparr>ip_last_update_ns := now_ns, ip_packet_count := 1, ip_total_packets := 1,
                burst_tokens := burst_allowance config\<rparr>))
      | Some state \<Rightarrow>
          (let elapsed_ns = now_ns - ip_last_update_ns state;
               state1 =
                 (if elapsed_ns \<ge> ucast (window_size_ns config)
                  then state\<lparr>ip_last_update_ns := now_ns, ip_packet_count := 1,
                             burst_tokens := burst_allowance config\<rparr>
                  else state\<lparr>ip_packet_count := ip_packet_count state + 1\<rparr>);
               state2 = state1\<lparr>ip_total_packets := ip_total_packets state1 + 1\<rparr>
           in if ip_packet_count state2 > per_ip_pps_limit config then
                (if burst_tokens state2 > 0 then
                   (XDP_PASS, m(src_ip \<mapsto> state2\<lparr>burst_tokens := burst_tokens state2 - 1\<rparr>))
                 else
                   (XDP_DROP,
                    m(src_ip \<mapsto> state2\<lparr>ip_dropped_packets := ip_dropped_packets state2 + 1\<rparr>)))
              else (XDP_PASS, m(src_ip \<mapsto> state2))))"

definition zero_global_rate_state :: global_rate_state where
  "zero_global_rate_state =
     \<lparr>g_last_update_ns = 0, g_packet_count = 0, g_total_packets = 0, g_dropped_packets = 0\<rparr>"

definition check_global_rate_limit ::
  "rate_limit_config \<Rightarrow> u64 \<Rightarrow> global_rate_state option
     \<Rightarrow> xdp_action \<times> global_rate_state option" where
  "check_global_rate_limit config now_ns g =
     (case g of
        None \<Rightarrow>
          (XDP_PASS,
           Some (zero_global_rate_state
                   \<lparr>g_last_update_ns := now_ns, g_packet_count := 1, g_total_packets := 1\<rparr>))
      | Some state \<Rightarrow>
          (let elapsed_ns = now_ns - g_last_update_ns state;
               state1 =
                 (if elapsed_ns \<ge> ucast (window_size_ns config)
                  then state\<lparr>g_last_update_ns := now_ns, g_packet_count := 1\<rparr>
                  else state\<lparr>g_packet_count := g_packet_count state + 1\<rparr>);
               state2 = state1\<lparr>g_total_packets := g_total_packets state1 + 1\<rparr>
           in if g_packet_count state2 > global_pps_limit config then
                (XDP_DROP, Some (state2\<lparr>g_dropped_packets := g_dropped_packets state2 + 1\<rparr>))
              else (XDP_PASS, Some state2)))"

definition zero_rate_limit_stats :: rate_limit_stats where
  "zero_rate_limit_stats =
     \<lparr>st_total_packets = 0, st_passed_packets = 0, st_dropped_packets = 0,
      rate_limited_ips = 0, global_drops = 0, per_ip_drops = 0\<rparr>"

text \<open>
  \<^verbatim>\<open>update_stats\<close> of rate\_limit.c: a missing element is replaced by a zeroed local struct,
  and the result is written back to the map in every case.
\<close>

definition stats_or_zero :: "rate_limit_stats option \<Rightarrow> rate_limit_stats" where
  "stats_or_zero sm = (case sm of None \<Rightarrow> zero_rate_limit_stats | Some st \<Rightarrow> st)"

definition update_stats ::
  "xdp_action \<Rightarrow> bool \<Rightarrow> bool \<Rightarrow> rate_limit_stats option \<Rightarrow> rate_limit_stats option" where
  "update_stats act global_drop ip_drop sm =
     (let stats = stats_or_zero sm;
          stats1 = stats\<lparr>st_total_packets := st_total_packets stats + 1\<rparr>;
          stats2 =
            (if act = XDP_DROP then
               (let d = stats1\<lparr>st_dropped_packets := st_dropped_packets stats1 + 1\<rparr>;
                    d1 = (if global_drop then d\<lparr>global_drops := global_drops d + 1\<rparr> else d)
                in if ip_drop then d1\<lparr>per_ip_drops := per_ip_drops d1 + 1\<rparr> else d1)
             else stats1\<lparr>st_passed_packets := st_passed_packets stats1 + 1\<rparr>)
      in Some stats2)"

text \<open>
  \<^verbatim>\<open>xdp_rate_limiter\<close>. The packet and the value \<^verbatim>\<open>bpf_ktime_get_ns()\<close> returns are inputs;
  the result is the XDP action and the maps after the call.
\<close>

definition xdp_rate_limiter :: "packet \<Rightarrow> u64 \<Rightarrow> rl_maps \<Rightarrow> xdp_action \<times> rl_maps" where
  "xdp_rate_limiter p now_ns s =
     (case enterprise_license_map s of
        None \<Rightarrow> (XDP_PASS, s)
      | Some enterprise_enabled \<Rightarrow>
          if enterprise_enabled = 0 then (XDP_PASS, s)
          else
            (case rate_limit_config_map s of
               None \<Rightarrow> (XDP_PASS, s)
             | Some config \<Rightarrow>
                 if enabled config = 0 then (XDP_PASS, s)
                 else
                   (case parse_ipv4 p of
                      None \<Rightarrow> (XDP_PASS, s)
                    | Some (src_ip, dst_ip) \<Rightarrow>
                        (let (act1, g1) =
                               (if global_pps_limit config > 0
                                then check_global_rate_limit config now_ns (global_rate_state_map s)
                                else (XDP_PASS, global_rate_state_map s));
                             s1 = s\<lparr>global_rate_state_map := g1\<rparr>
                         in if global_pps_limit config > 0 \<and> act1 = XDP_DROP then
                              (act1,
                               s1\<lparr>rate_limit_stats_map :=
                                     update_stats act1 True False (rate_limit_stats_map s1)\<rparr>)
                            else
                              (let (act2, m2) =
                                     (if per_ip_pps_limit config > 0
                                      then check_ip_rate_limit config src_ip now_ns
                                             (ip_rate_state_map s1)
                                      else (act1, ip_rate_state_map s1));
                                   ip_drop = (per_ip_pps_limit config > 0 \<and> act2 = XDP_DROP);
                                   s2 = s1\<lparr>ip_rate_state_map := m2\<rparr>
                               in (act2,
                                   s2\<lparr>rate_limit_stats_map :=
                                         update_stats act2 False ip_drop
                                           (rate_limit_stats_map s2)\<rparr>))))))"


section \<open>The enhanced XDP program (proxy-egress/internal/acceleration/xdp/ebpf/enhanced\_rules.c)\<close>

definition MAX_SERVICES :: nat where "MAX_SERVICES = 1024"

definition AUTH_NONE :: u8 where "AUTH_NONE = 0"
definition AUTH_COMPLEX :: u8 where "AUTH_COMPLEX = 2"

text \<open>
  The structs of the program. Their fields carry a prefix per struct (\<open>svc_\<close>, \<open>rle_\<close>,
  \<open>conn_\<close>, \<open>tok_\<close>, \<open>gs_\<close>), since several structs share field names.
\<close>

record service =
  svc_service_id :: u32
  svc_ip_addr :: u32
  svc_port_start :: u16
  svc_port_end :: u16
  svc_protocol :: u8
  svc_auth_type :: u8
  svc_requires_tls :: u8
  svc_allows_websocket :: u8
  svc_rate_limit_pps :: u32
  svc_bandwidth_limit :: u32
  svc_last_activity :: u64
  svc_packet_count :: u64
  svc_byte_count :: u64

record rate_limit_entry =
  rle_key :: u32
  rle_last_update :: u64
  rle_packet_count :: u32
  rle_byte_count :: u32
  rle_tokens :: u32

record connection =
  conn_src_ip :: u32
  conn_dst_ip :: u32
  conn_src_port :: u16
  conn_dst_port :: u16
  conn_protocol :: u8
  conn_state :: u8
  conn_last_activity :: u64
  conn_packets_rx :: u64
  conn_packets_tx :: u64
  conn_bytes_rx :: u64
  conn_bytes_tx :: u64
  conn_service_id :: u32

record auth_token =
  tok_token_hash :: u32
  tok_service_id :: u32
  tok_expiry_time :: u64
  tok_permissions :: u8




definition hash_connection :: "u32 \<Rightarrow> u32 \<Rightarrow> u16 \<Rightarrow> u16 \<Rightarrow> u8 \<Rightarrow> u32" where
  "hash_connection src_ip dst_ip src_port dst_port proto =
     src_ip XOR dst_ip XOR push_bit 16 (ucast src_port) XOR ucast dst_port XOR ucast proto"

text \<open>
  The refill of \<^verbatim>\<open>check_rate_limit\<close> (lines 204 to 214): the product is a 64-bit
  multiplication, the quotient is truncated to the 32-bit \<^verbatim>\<open>tokens_to_add\<close>.
\<close>

definition tokens_to_add :: "u32 \<Rightarrow> u64 \<Rightarrow> u32" where
  "tokens_to_add limit_pps time_diff = ucast ((time_diff * ucast limit_pps) div 1000000000)"

definition refill :: "u32 \<Rightarrow> u64 \<Rightarrow> rate_limit_entry \<Rightarrow> rate_limit_entry" where
  "refill limit_pps now entry =
     (if tokens_to_add limit_pps (now - rle_last_update entry) > 0 then
        (let e1 = entry\<lparr>rle_tokens :=
                     rle_tokens entry + tokens_to_add limit_pps (now - rle_last_update entry)\<rparr>;
             e2 = (if rle_tokens e1 > limit_pps then e1\<lparr>rle_tokens := limit_pps\<rparr> else e1)
         in e2\<lparr>rle_last_update := now\<rparr>)
      else entry)"

text \<open>\<^verbatim>\<open>check_rate_limit\<close>: \<open>True\<close> is the return value 1 (allow), \<open>False\<close> is 0.\<close>

definition check_rate_limit ::
  "u32 \<Rightarrow> u32 \<Rightarrow> u64 \<Rightarrow> (u32 \<rightharpoonup> rate_limit_entry) \<Rightarrow> bool \<times> (u32 \<rightharpoonup> rate_limit_entry)" where
  "check_rate_limit key limit_pps now m =
     (case m key of
        None \<Rightarrow>
          (True,
           m(key \<mapsto> \<lparr>rle_key = key, rle_last_update = now, rle_packet_count = 1,
                     rle_byte_count = 0, rle_tokens = limit_pps - 1\<rparr>))
      | Some entry \<Rightarrow>
          (let e = refill limit_pps now entry
           in if rle_tokens e > 0 then
                (True, m(key \<mapsto> e\<lparr>rle_tokens := rle_tokens e - 1,
                                    rle_packet_count := rle_packet_count e + 1\<rparr>))
              else (False, m(key \<mapsto> e))))"

text \<open>A sequence of packet-triggered updates of the buckets under one limit.\<close>

fun rate_limit_run ::
  "u32 \<Rightarrow> (u32 \<times> u64) list \<Rightarrow> (u32 \<rightharpoonup> rate_limit_entry) \<Rightarrow> (u32 \<rightharpoonup> rate_limit_entry)" where
  "rate_limit_run limit_pps [] m = m"
| "rate_limit_run limit_pps ((key, now) # ps) m =
     rate_limit_run limit_pps ps (snd (check_rate_limit key limit_pps now m))"

text \<open>
  The scan of \<^verbatim>\<open>check_authentication\<close> for the bytes \<^verbatim>\<open>Auth\<close> (lines 261 to 268):
  the index of the first match among the indices the loop visits.
\<close>

function scan_auth :: "packet \<Rightarrow> nat \<Rightarrow> nat \<Rightarrow> nat option" where
  "scan_auth p payload i =
     (if i < 24 \<and> payload + i + 8 < length p then
        (if p ! (payload + i) = 0x41 \<and> p ! (payload + i + 1) = 0x75
              \<and> p ! (payload + i + 2) = 0x74 \<and> p ! (payload + i + 3) = 0x68
         then Some i
         else scan_auth p payload (i + 1))
      else None)"
  by pat_completeness auto
termination
  by (relation "measure (\<lambda>(p, payload, i). 24 - i)") auto

declare scan_auth.simps [simp del]

text \<open>
  \<^verbatim>\<open>check_authentication\<close>. \<open>Some True\<close> is the return value 1, \<open>Some False\<close> is 0. The
  token word is read at \<^verbatim>\<open>payload + i + 20\<close>, which the loop condition does not bound: where
  that word lies behind \<^verbatim>\<open>data_end\<close> the result is \<open>None\<close> (a read outside the packet).
\<close>

definition check_authentication ::
  "packet \<Rightarrow> u32 \<Rightarrow> u64 \<Rightarrow> (u32 \<rightharpoonup> auth_token) \<Rightarrow> bool option" where
  "check_authentication p service_id now tokens =
     (if ETH_HLEN > length p then Some False
      else if eth_h_proto p \<noteq> ETH_P_IP then Some True
      else if ETH_HLEN + IPHDR_SIZE > length p then Some False
      else if ip_protocol p ETH_HLEN \<noteq> PROTO_TCP then Some True
      else
        (let tcp = ETH_HLEN + unat (ip_ihl p ETH_HLEN) * 4 in
         if tcp + TCPHDR_SIZE > length p then Some False
         else
           (let payload = tcp + unat (tcp_doff p tcp) * 4 in
            if payload + 32 > length p then Some True
            else
              (case scan_auth p payload 0 of
                 None \<Rightarrow> Some False
               | Some i \<Rightarrow>
                   if payload + i + 24 > length p then None
                   else
                     (let token_hash = load32 p (payload + i + 20) in
                      if token_hash = 0 then Some False
                      else
                        (case tokens token_hash of
                           None \<Rightarrow> Some False
                         | Some token \<Rightarrow>
                             if now > tok_expiry_time token then Some False
                             else if tok_service_id token \<noteq> service_id
                                       \<and> tok_service_id token \<noteq> 0 then Some False
                             else Some True))))))"

definition update_connection_tracking ::
  "u32 \<Rightarrow> u32 \<Rightarrow> u16 \<Rightarrow> u16 \<Rightarrow> u8 \<Rightarrow> u32 \<Rightarrow> u32 \<Rightarrow> u64
     \<Rightarrow> (u64 \<rightharpoonup> connection) \<Rightarrow> (u64 \<rightharpoonup> connection)" where
  "update_connection_tracking src_ip dst_ip src_port dst_port proto service_id packet_len now m =
     (let conn_hash = ucast (hash_connection src_ip dst_ip src_port dst_port proto) :: u64 in
      case m conn_hash of
        None \<Rightarrow>
          m(conn_hash \<mapsto>
              \<lparr>conn_src_ip = src_ip, conn_dst_ip = dst_ip, conn_src_port = src_port,
               conn_dst_port = dst_port, conn_protocol = proto, conn_state = 1,
               conn_last_activity = now, conn_packets_rx = 1, conn_packets_tx = 0,
               conn_bytes_rx = ucast packet_len, conn_bytes_tx = 0,
               conn_service_id = service_id\<rparr>)
      | Some conn \<Rightarrow>
          m(conn_hash \<mapsto>
              conn\<lparr>conn_last_activity := now, conn_packets_rx := conn_packets_rx conn + 1,
                   conn_bytes_rx := conn_bytes_rx conn + ucast packet_len\<rparr>))"

text \<open>\<^verbatim>\<open>needs_complex_processing\<close>: \<open>True\<close> is the return value 1.\<close>

definition needs_complex_processing :: "packet \<Rightarrow> service option \<Rightarrow> bool" where
  "needs_complex_processing p svc =
     (case svc of
        None \<Rightarrow> True
      | Some service \<Rightarrow>
          if svc_requires_tls service \<noteq> 0 then True
          else if svc_allows_websocket service \<noteq> 0 then True
          else if svc_auth_type service = AUTH_COMPLEX then True
          else if ETH_HLEN > length p then True
          else if eth_h_proto p \<noteq> ETH_P_IP then False
          else if ETH_HLEN + IPHDR_SIZE > length p then True
          else if ip_protocol p ETH_HLEN = PROTO_TCP then
            (let tcp = ETH_HLEN + unat (ip_ihl p ETH_HLEN) * 4 in
             if tcp + TCPHDR_SIZE > length p then True
             else if l4_dest p tcp = 443 then True
             else
               (let payload = tcp + unat (tcp_doff p tcp) * 4 in
                if payload + 6 \<le> length p then
                  (if p ! payload = 0x16 \<and> p ! (payload + 1) = 0x03 then True
                   else if p ! payload = 0x47 \<and> p ! (payload + 1) = 0x45
                             \<and> p ! (payload + 2) = 0x54 then True
                   else False)
                else False))
          else False)"

text \<open>
  The service scan of \<^verbatim>\<open>process_packet\<close> (lines 457 to 475): the loop over the keys
  1 to \<^verbatim>\<open>MAX_SERVICES\<close>, with the match condition of lines 468 to 471. The result is the
  value of \<^verbatim>\<open>service_key\<close> at the \<^verbatim>\<open>break\<close> together with the service found there,
  or \<open>None\<close> when the loop ends with \<^verbatim>\<open>service == NULL\<close>.
\<close>

definition service_matches :: "service \<Rightarrow> u32 \<Rightarrow> u16 \<Rightarrow> u8 \<Rightarrow> bool" where
  "service_matches service dst_ip dst_port proto \<longleftrightarrow>
     svc_ip_addr service = dst_ip \<and> dst_port \<ge> svc_port_start service
       \<and> dst_port \<le> svc_port_end service
       \<and> (svc_protocol service = 0 \<or> svc_protocol service = proto)"

function find_service_from ::
  "nat \<Rightarrow> (u32 \<rightharpoonup> service) \<Rightarrow> u32 \<Rightarrow> u16 \<Rightarrow> u8 \<Rightarrow> (u32 \<times> service) option" where
  "find_service_from service_key m dst_ip dst_port proto =
     (if service_key \<le> MAX_SERVICES then
        (case m (of_nat service_key) of
           None \<Rightarrow> find_service_from (service_key + 1) m dst_ip dst_port proto
         | Some service \<Rightarrow>
             if service_matches service dst_ip dst_port proto
             then Some (of_nat service_key, service)
             else find_service_from (service_key + 1) m dst_ip dst_port proto)
      else None)"
  by pat_completeness auto
termination
  by (relation "measure (\<lambda>(k, m, a, b, c). MAX_SERVICES + 1 - k)") auto

declare find_service_from.simps [simp del]

definition find_service :: "(u32 \<rightharpoonup> service) \<Rightarrow> u32 \<Rightarrow> u16 \<Rightarrow> u8 \<Rightarrow> (u32 \<times> service) option" where
  "find_service m dst_ip dst_port proto = find_service_from 1 m dst_ip dst_port proto"










section \<open>The TLS check of the Envoy XDP program (proxy-l7/xdp/envoy\_xdp.c)\<close>

text \<open>
  \<^verbatim>\<open>detect_tls(data, data_end)\<close>, with \<^verbatim>\<open>data\<close> the offset \<open>payload\<close> of the TCP payload in the
  packet: \<open>True\<close> is the return value 1, \<open>False\<close> is 0.
\<close>

definition detect_tls :: "packet \<Rightarrow> nat \<Rightarrow> bool" where
  "detect_tls p payload =
     (if payload + 3 > length p then False
      else if (p ! payload = 0x16 \<or> p ! payload = 0x17) \<and> p ! (payload + 1) = 0x03
                \<and> (p ! (payload + 2) \<ge> 0x01 \<and> p ! (payload + 2) \<le> 0x04) then True
      else False)"

section \<open>The TC ingress program (ebpf/src/marchproxy.c)\<close>


text \<open>
  The structs of the program, with a prefix per struct where a field name is shared with
  another struct of this theory. The three arrays of \<^verbatim>\<open>struct mapping\<close> are lists of
  \<^verbatim>\<open>MAX_PORTS\<close> elements.
\<close>

record mp_service =
  mps_id :: u32
  mps_ip_addr :: u32
  mps_port :: u16
  mps_auth_required :: u8
  mps_auth_type :: u8
  mps_flags :: u32

record mapping =
  mpg_id :: u32
  source_services :: "u32 list"
  dest_services :: "u32 list"
  ports :: "u16 list"
  protocols :: u8
  mpg_auth_required :: u8
  mpg_priority :: u8
  port_count :: u8
  src_count :: u8
  dest_count :: u8

















section \<open>The XDP filter program (proxy/ebpf/programs/filter.c)\<close>


record rule_value =
  rv_action :: u8
  rv_auth_required :: u8
  rv_redirect_port :: u16
  rv_redirect_ip :: u32
  rv_rule_id :: u64







section \<open>Concrete inputs\<close>

text \<open>
  Packets, configurations and map contents at which the theorems below are instantiated.
  \<open>ex_ipv4_tcp\<close> is a 54-byte frame: an Ethernet header of type 0x0800, an IPv4 header
  (IHL 5, protocol 6, 10.0.0.1 to 10.0.0.5) and a TCP header (port 12345 to port 80, data
  offset 5) without payload.
\<close>

definition ex_ipv4_tcp :: packet where
  "ex_ipv4_tcp =
     [0, 0, 0, 0, 0, 0, 0, 0, 0, 0, 0, 0, 0x08, 0x00,
      0x45, 0, 0, 40, 0, 0, 0, 0, 64, 6, 0, 0, 10, 0, 0, 1, 10, 0, 0, 5,
      0x30, 0x39, 0x00, 0x50, 0, 0, 0, 0, 0, 0, 0, 0, 0x50, 0x02, 0, 0, 0, 0, 0, 0]"

definition ex_cfg :: rate_limit_config where
  "ex_cfg =
     \<lparr>enabled = 1, global_pps_limit = 1, per_ip_pps_limit = 2, window_size_ns = 1000,
      burst_allowance = 1, action = 1\<rparr>"

definition ex_rl :: rl_maps where
  "ex_rl =
     \<lparr>rate_limit_config_map = Some ex_cfg, ip_rate_state_map = Map.empty,
      global_rate_state_map =
        Some \<lparr>g_last_update_ns = 0, g_packet_count = 1, g_total_packets = 1,
              g_dropped_packets = 0\<rparr>,
      rate_limit_stats_map = None, enterprise_license_map = Some 1\<rparr>"

text \<open>
  Services for the destination 10.0.0.5, TCP port 80 of \<open>ex_ipv4_tcp\<close>: without
  authentication, with simple authentication, and one for another address.
\<close>

definition ex_service :: service where
  "ex_service =
     \<lparr>svc_service_id = 1, svc_ip_addr = 0x0500000A, svc_port_start = 80, svc_port_end = 80,
      svc_protocol = 6, svc_auth_type = 0, svc_requires_tls = 0, svc_allows_websocket = 0,
      svc_rate_limit_pps = 0, svc_bandwidth_limit = 0, svc_last_activity = 0,
      svc_packet_count = 0, svc_byte_count = 0\<rparr>"

definition ex_service_auth :: service where
  "ex_service_auth = ex_service\<lparr>svc_auth_type := 1\<rparr>"

definition ex_service_other :: service where
  "ex_service_other = ex_service\<lparr>svc_ip_addr := 0x0600000A\<rparr>"

text \<open>
  The headers of \<open>ex_ipv4_tcp\<close> followed by a TCP payload: a TLS application-data record
  header (type 0x17, version 3.3), a record whose first two bytes are 0x16 0x03 with a third
  byte outside 1 to 4, a TLS 1.2 handshake record header, and 32 bytes without the pattern
  \<^verbatim>\<open>Auth\<close>.
\<close>

definition ex_tls_appdata :: packet where
  "ex_tls_appdata = ex_ipv4_tcp @ [0x17, 0x03, 0x03, 0, 0x20, 0]"

definition ex_tls_like :: packet where
  "ex_tls_like = ex_ipv4_tcp @ [0x16, 0x03, 0x09, 0, 0x20, 0]"

definition ex_tls_handshake :: packet where
  "ex_tls_handshake = ex_ipv4_tcp @ [0x16, 0x03, 0x03, 0, 0x20, 1]"


text \<open>
  A request whose payload starts with \<^verbatim>\<open>Auth\<close> and carries the token word 0xDEADBEEF at
  payload offset 20, and a token table that knows this token.
\<close>

definition ex_auth :: packet where
  "ex_auth =
     ex_ipv4_tcp @ [0x41, 0x75, 0x74, 0x68] @ replicate 16 0x20 @ [0xEF, 0xBE, 0xAD, 0xDE]
       @ replicate 8 0"

definition ex_tokens :: "u32 \<rightharpoonup> auth_token" where
  "ex_tokens =
     [0xDEADBEEF \<mapsto> \<lparr>tok_token_hash = 0xDEADBEEF, tok_service_id = 0, tok_expiry_time = 1000,
                      tok_permissions = 1\<rparr>]"



section \<open>The token bucket of the specification\<close>

text \<open>
  The refill as the specification words it (section 4.3): the capacity is the burst
  allowance plus the rate, and a refill sets the tokens to the minimum of the capacity and
  the tokens plus elapsed time times rate (the rate per second, the time in nanoseconds).
  These two definitions follow the specification, not the source; the refill of
  \<^verbatim>\<open>check_rate_limit\<close> is compared with them.
\<close>

definition spec_capacity :: "nat \<Rightarrow> nat \<Rightarrow> nat" where
  "spec_capacity burst rate = burst + rate"

definition spec_refill :: "nat \<Rightarrow> nat \<Rightarrow> nat \<Rightarrow> nat \<Rightarrow> nat" where
  "spec_refill capacity tokens elapsed_ns rate =
     min capacity (tokens + elapsed_ns * rate div 1000000000)"

text \<open>An exhausted bucket last updated at time 0.\<close>

definition ex_bucket :: rate_limit_entry where
  "ex_bucket =
     \<lparr>rle_key = 7, rle_last_update = 0, rle_packet_count = 1000, rle_byte_count = 0,
      rle_tokens = 0\<rparr>"





section \<open>Properties of the XDP rate limiter\<close>


subsection \<open>C9: the limiter is inert without licence or configuration\<close>

text \<open>
  C9. If the enterprise-license element is absent or zero, or the rate-limit configuration
  is absent or has \<^verbatim>\<open>enabled == 0\<close>, \<^verbatim>\<open>xdp_rate_limiter\<close> returns \<^verbatim>\<open>XDP_PASS\<close> for every packet
  and every clock value and leaves all maps as they were, whatever the global and per-source
  rate state holds.
\<close>

theorem rate_limiter_inert:
  "enterprise_license_map s = None \<or> enterprise_license_map s = Some 0
     \<or> rate_limit_config_map s = None
     \<or> (\<exists>c. rate_limit_config_map s = Some c \<and> enabled c = 0)
   \<Longrightarrow> xdp_rate_limiter p now_ns s = (XDP_PASS, s)"
  by (auto simp: xdp_rate_limiter_def split: option.splits)

theorem rate_limiter_inert_witness:
  "enterprise_license_map (ex_rl\<lparr>enterprise_license_map := Some 0\<rparr>) = Some 0
   \<and> xdp_rate_limiter ex_ipv4_tcp 5 (ex_rl\<lparr>enterprise_license_map := Some 0\<rparr>)
       = (XDP_PASS, ex_rl\<lparr>enterprise_license_map := Some 0\<rparr>)"
  using rate_limiter_inert [of "ex_rl\<lparr>enterprise_license_map := Some 0\<rparr>" ex_ipv4_tcp 5]
  by simp

subsection \<open>C7: a global rejection short-circuits the per-source check\<close>

lemma global_reject_result:
  assumes "enterprise_license_map s = Some l" "l \<noteq> 0"
      and "rate_limit_config_map s = Some c" "enabled c \<noteq> 0"
      and "parse_ipv4 p = Some (src_ip, dst_ip)"
      and "global_pps_limit c > 0"
      and "fst (check_global_rate_limit c now_ns (global_rate_state_map s)) = XDP_DROP"
  shows "xdp_rate_limiter p now_ns s =
           (XDP_DROP,
            s\<lparr>global_rate_state_map :=
                  snd (check_global_rate_limit c now_ns (global_rate_state_map s)),
              rate_limit_stats_map := update_stats XDP_DROP True False (rate_limit_stats_map s)\<rparr>)"
  using assms
  by (auto simp: xdp_rate_limiter_def Let_def split: option.splits prod.splits)

lemma update_stats_global_drop:
  "\<exists>st'. update_stats XDP_DROP True False sm = Some st'
      \<and> global_drops st' = global_drops (stats_or_zero sm) + 1
      \<and> per_ip_drops st' = per_ip_drops (stats_or_zero sm)"
  by (simp add: update_stats_def Let_def)

text \<open>
  C7. When the licence and the configuration enable the limiter, the packet is IPv4, the
  global limit is non-zero and the global check rejects, then \<^verbatim>\<open>xdp_rate_limiter\<close> returns
  \<^verbatim>\<open>XDP_DROP\<close>, the per-source map is left as it was (no entry created, no token consumed),
  the result does not depend on the content of the per-source map, and the statistics count
  the drop under \<^verbatim>\<open>global_drops\<close> (plus one) and not under \<^verbatim>\<open>per_ip_drops\<close> (unchanged). The
  global check is the one evaluated first: its verdict alone decides this case.
\<close>

theorem global_reject_skips_per_source:
  assumes "enterprise_license_map s = Some l" "l \<noteq> 0"
      and "rate_limit_config_map s = Some c" "enabled c \<noteq> 0"
      and "parse_ipv4 p = Some (src_ip, dst_ip)"
      and "global_pps_limit c > 0"
      and "fst (check_global_rate_limit c now_ns (global_rate_state_map s)) = XDP_DROP"
  shows "fst (xdp_rate_limiter p now_ns s) = XDP_DROP
       \<and> ip_rate_state_map (snd (xdp_rate_limiter p now_ns s)) = ip_rate_state_map s
       \<and> (\<forall>m'. xdp_rate_limiter p now_ns (s\<lparr>ip_rate_state_map := m'\<rparr>)
                 = (fst (xdp_rate_limiter p now_ns s),
                    (snd (xdp_rate_limiter p now_ns s))\<lparr>ip_rate_state_map := m'\<rparr>))
       \<and> (\<exists>st'. rate_limit_stats_map (snd (xdp_rate_limiter p now_ns s)) = Some st'
              \<and> global_drops st' = global_drops (stats_or_zero (rate_limit_stats_map s)) + 1
              \<and> per_ip_drops st' = per_ip_drops (stats_or_zero (rate_limit_stats_map s)))"
proof -
  note r = global_reject_result [OF assms]
  have indep: "xdp_rate_limiter p now_ns (s\<lparr>ip_rate_state_map := m'\<rparr>)
                 = (fst (xdp_rate_limiter p now_ns s),
                    (snd (xdp_rate_limiter p now_ns s))\<lparr>ip_rate_state_map := m'\<rparr>)" for m'
  proof -
    have "xdp_rate_limiter p now_ns (s\<lparr>ip_rate_state_map := m'\<rparr>) =
            (XDP_DROP,
             (s\<lparr>ip_rate_state_map := m'\<rparr>)
               \<lparr>global_rate_state_map :=
                  snd (check_global_rate_limit c now_ns (global_rate_state_map s)),
                rate_limit_stats_map :=
                  update_stats XDP_DROP True False (rate_limit_stats_map s)\<rparr>)"
      using global_reject_result [of "s\<lparr>ip_rate_state_map := m'\<rparr>" l c p src_ip dst_ip now_ns]
        assms
      by simp
    then show ?thesis by (simp add: r)
  qed
  from update_stats_global_drop [of "rate_limit_stats_map s"] obtain st' where
    "update_stats XDP_DROP True False (rate_limit_stats_map s) = Some st'"
    "global_drops st' = global_drops (stats_or_zero (rate_limit_stats_map s)) + 1"
    "per_ip_drops st' = per_ip_drops (stats_or_zero (rate_limit_stats_map s))"
    by blast
  then show ?thesis using indep by (simp add: r)
qed

theorem global_reject_skips_per_source_witness:
  "enterprise_license_map ex_rl = Some 1 \<and> (1 :: u32) \<noteq> 0
   \<and> rate_limit_config_map ex_rl = Some ex_cfg \<and> enabled ex_cfg \<noteq> 0
   \<and> parse_ipv4 ex_ipv4_tcp = Some (0x0100000A, 0x0500000A)
   \<and> global_pps_limit ex_cfg > 0
   \<and> fst (check_global_rate_limit ex_cfg 5 (global_rate_state_map ex_rl)) = XDP_DROP
   \<and> fst (xdp_rate_limiter ex_ipv4_tcp 5 ex_rl) = XDP_DROP
   \<and> ip_rate_state_map (snd (xdp_rate_limiter ex_ipv4_tcp 5 ex_rl)) = ip_rate_state_map ex_rl"
proof -
  have h1: "enterprise_license_map ex_rl = Some 1" by (simp add: ex_rl_def)
  have h2: "(1 :: u32) \<noteq> 0" by simp
  have h3: "rate_limit_config_map ex_rl = Some ex_cfg" by (simp add: ex_rl_def)
  have h4: "enabled ex_cfg \<noteq> 0" by (simp add: ex_cfg_def)
  have h5: "parse_ipv4 ex_ipv4_tcp = Some (0x0100000A, 0x0500000A)" by code_simp
  have h6: "global_pps_limit ex_cfg > 0" by (simp add: ex_cfg_def)
  have h7: "fst (check_global_rate_limit ex_cfg 5 (global_rate_state_map ex_rl)) = XDP_DROP"
    by code_simp
  from global_reject_skips_per_source [OF h1 h2 h3 h4 h5 h6 h7] h1 h2 h3 h4 h5 h6 h7
  show ?thesis by blast
qed

subsection \<open>C3: one window admits rate plus burst packets of a source\<close>






section \<open>Properties of the enhanced XDP program\<close>

subsection \<open>C10: flows with equal hash share one connection entry\<close>

text \<open>
  C10. \<^verbatim>\<open>update_connection_tracking\<close> looks the connection up under the 32-bit XOR hash of
  the 5-tuple alone and never compares the tuple stored in the entry. There are two distinct
  5-tuples with the same hash; and for any two 5-tuples with the same hash, a packet of the
  first (on a table without an entry for the hash) followed by a packet of the second leaves
  one entry under that hash: it carries the tuple and service of the first flow, the
  timestamp of the second packet, a packet count of 2 and the byte count of both packets.
\<close>

theorem colliding_flows_share_one_entry:
  assumes coll: "hash_connection s1 d1 sp1 dp1 pr1 = hash_connection s2 d2 sp2 dp2 pr2"
      and fresh: "m (ucast (hash_connection s1 d1 sp1 dp1 pr1)) = None"
  shows "(\<exists>a b c d e a' b' c' d' e'. (a, b, c, d, e) \<noteq> (a', b', c', d', e')
            \<and> hash_connection a b c d e = hash_connection a' b' c' d' e')
       \<and> update_connection_tracking s2 d2 sp2 dp2 pr2 sid2 len2 now2
           (update_connection_tracking s1 d1 sp1 dp1 pr1 sid1 len1 now1 m)
         = m(ucast (hash_connection s1 d1 sp1 dp1 pr1) \<mapsto>
              \<lparr>conn_src_ip = s1, conn_dst_ip = d1, conn_src_port = sp1,
               conn_dst_port = dp1, conn_protocol = pr1, conn_state = 1,
               conn_last_activity = now2, conn_packets_rx = 2, conn_packets_tx = 0,
               conn_bytes_rx = ucast len1 + ucast len2, conn_bytes_tx = 0,
               conn_service_id = sid1\<rparr>)"
proof -
  have ex: "\<exists>a b c d e a' b' c' d' e'. (a, b, c, d, e) \<noteq> (a', b', c', d', e')
            \<and> hash_connection a b c d e = hash_connection a' b' c' d' e'"
  proof -
    have "((1::u32), (2::u32), (0::u16), (0::u16), (6::u8)) \<noteq> (2, 1, 0, 0, 6)
        \<and> hash_connection 1 2 0 0 6 = hash_connection 2 1 0 0 6"
      by (simp add: hash_connection_def)
    then show ?thesis by blast
  qed
  define h :: u64 where "h = ucast (hash_connection s1 d1 sp1 dp1 pr1)"
  define c1 where "c1 = \<lparr>conn_src_ip = s1, conn_dst_ip = d1, conn_src_port = sp1,
               conn_dst_port = dp1, conn_protocol = pr1, conn_state = 1,
               conn_last_activity = now1, conn_packets_rx = 1, conn_packets_tx = 0,
               conn_bytes_rx = ucast len1, conn_bytes_tx = 0,
               conn_service_id = sid1\<rparr>"
  have h2: "ucast (hash_connection s2 d2 sp2 dp2 pr2) = h"
    using coll by (simp add: h_def)
  have m1: "update_connection_tracking s1 d1 sp1 dp1 pr1 sid1 len1 now1 m = m(h \<mapsto> c1)"
    using fresh by (simp add: update_connection_tracking_def Let_def h_def c1_def)
  have m2: "update_connection_tracking s2 d2 sp2 dp2 pr2 sid2 len2 now2 (m(h \<mapsto> c1))
              = m(h \<mapsto> c1\<lparr>conn_last_activity := now2,
                              conn_packets_rx := conn_packets_rx c1 + 1,
                              conn_bytes_rx := conn_bytes_rx c1 + ucast len2\<rparr>)"
    by (simp add: update_connection_tracking_def Let_def h2)
  have "update_connection_tracking s2 d2 sp2 dp2 pr2 sid2 len2 now2
           (update_connection_tracking s1 d1 sp1 dp1 pr1 sid1 len1 now1 m)
         = m(h \<mapsto> \<lparr>conn_src_ip = s1, conn_dst_ip = d1, conn_src_port = sp1,
               conn_dst_port = dp1, conn_protocol = pr1, conn_state = 1,
               conn_last_activity = now2, conn_packets_rx = 2, conn_packets_tx = 0,
               conn_bytes_rx = ucast len1 + ucast len2, conn_bytes_tx = 0,
               conn_service_id = sid1\<rparr>)"
    by (simp add: m1 m2) (simp add: c1_def)
  then show ?thesis using ex by (simp add: h_def)
qed

theorem colliding_flows_share_one_entry_witness:
  "hash_connection 1 2 0 0 6 = hash_connection 2 1 0 0 6
   \<and> update_connection_tracking 2 1 0 0 6 9 60 200
        (update_connection_tracking 1 2 0 0 6 9 40 100 Map.empty)
        (ucast (hash_connection 1 2 0 0 6))
      = Some \<lparr>conn_src_ip = 1, conn_dst_ip = 2, conn_src_port = 0,
               conn_dst_port = 0, conn_protocol = 6, conn_state = 1,
               conn_last_activity = 200, conn_packets_rx = 2, conn_packets_tx = 0,
               conn_bytes_rx = 100, conn_bytes_tx = 0,
               conn_service_id = 9\<rparr>"
proof -
  have h1: "hash_connection 1 2 0 0 6 = hash_connection 2 1 0 0 6"
    by (simp add: hash_connection_def)
  have h2: "Map.empty (ucast (hash_connection 1 2 0 0 6) :: u64) = (None :: connection option)"
    by simp
  from colliding_flows_share_one_entry
         [where m=Map.empty and ?len1.0=40 and ?len2.0=60 and ?now1.0=100 and ?now2.0=200
            and ?sid1.0=9 and ?sid2.0=9, OF h1 h2]
  show ?thesis using h1 by simp
qed

subsection \<open>C8: the service scan\<close>

text \<open>No service stored under a scanned key from k on matches.\<close>

lemma find_service_from_None:
  "find_service_from k m dst_ip dst_port proto = None \<longleftrightarrow>
     (\<forall>j. k \<le> j \<and> j \<le> MAX_SERVICES \<longrightarrow>
        (\<forall>svc. m (of_nat j) = Some svc \<longrightarrow> \<not> service_matches svc dst_ip dst_port proto))"
proof (induction k m dst_ip dst_port proto rule: find_service_from.induct)
  case (1 k m dst_ip dst_port proto)
  show ?case
  proof (cases "k \<le> MAX_SERVICES")
    case False
    then show ?thesis by (auto simp: find_service_from.simps [of k])
  next
    case True
    have split: "(\<forall>j. k \<le> j \<and> j \<le> MAX_SERVICES \<longrightarrow> P j) \<longleftrightarrow>
                 P k \<and> (\<forall>j. k + 1 \<le> j \<and> j \<le> MAX_SERVICES \<longrightarrow> P j)" for P
    proof
      assume a: "\<forall>j. k \<le> j \<and> j \<le> MAX_SERVICES \<longrightarrow> P j"
      have "P k" using a True by simp
      moreover have "\<forall>j. k + 1 \<le> j \<and> j \<le> MAX_SERVICES \<longrightarrow> P j"
      proof (intro allI impI)
        fix j assume "k + 1 \<le> j \<and> j \<le> MAX_SERVICES"
        then have "k \<le> j \<and> j \<le> MAX_SERVICES" by arith
        then show "P j" using a by blast
      qed
      ultimately show "P k \<and> (\<forall>j. k + 1 \<le> j \<and> j \<le> MAX_SERVICES \<longrightarrow> P j)" by blast
    next
      assume b: "P k \<and> (\<forall>j. k + 1 \<le> j \<and> j \<le> MAX_SERVICES \<longrightarrow> P j)"
      show "\<forall>j. k \<le> j \<and> j \<le> MAX_SERVICES \<longrightarrow> P j"
      proof (intro allI impI)
        fix j assume j: "k \<le> j \<and> j \<le> MAX_SERVICES"
        show "P j"
        proof (cases "j = k")
          case True
          then show ?thesis using b by simp
        next
          case False
          then have "k + 1 \<le> j \<and> j \<le> MAX_SERVICES" using j by arith
          then show ?thesis using b by blast
        qed
      qed
    qed
    show ?thesis
    proof (cases "m (of_nat k)")
      case None
      then show ?thesis
        using True "1.IH"(1) [OF True None]
        by (subst find_service_from.simps, subst split) simp
    next
      case (Some svc)
      show ?thesis
      proof (cases "service_matches svc dst_ip dst_port proto")
        case m: True
        then show ?thesis
          using True Some
          by (subst find_service_from.simps, subst split) simp
      next
        case nm: False
        then show ?thesis
          using True Some "1.IH"(2) [OF True Some nm]
          by (subst find_service_from.simps, subst split) simp
      qed
    qed
  qed
qed

lemma find_service_from_Some:
  "find_service_from k m dst_ip dst_port proto = Some (key, svc) \<longleftrightarrow>
     (\<exists>j. k \<le> j \<and> j \<le> MAX_SERVICES \<and> key = of_nat j \<and> m (of_nat j) = Some svc
         \<and> service_matches svc dst_ip dst_port proto
         \<and> (\<forall>i. k \<le> i \<and> i < j \<longrightarrow>
               (\<forall>s'. m (of_nat i) = Some s' \<longrightarrow> \<not> service_matches s' dst_ip dst_port proto)))"
proof (induction k m dst_ip dst_port proto rule: find_service_from.induct)
  case (1 k m dst_ip dst_port proto)
  let ?Q = "\<lambda>k. \<exists>j. k \<le> j \<and> j \<le> MAX_SERVICES \<and> key = of_nat j \<and> m (of_nat j) = Some svc
         \<and> service_matches svc dst_ip dst_port proto
         \<and> (\<forall>i. k \<le> i \<and> i < j \<longrightarrow>
               (\<forall>s'. m (of_nat i) = Some s' \<longrightarrow> \<not> service_matches s' dst_ip dst_port proto))"
  show ?case
  proof (cases "k \<le> MAX_SERVICES")
    case False
    then show ?thesis by (auto simp: find_service_from.simps [of k])
  next
    case True
    show ?thesis
    proof (cases "m (of_nat k)")
      case None
      have "?Q k \<longleftrightarrow> ?Q (k + 1)"
      proof
        assume "?Q k"
        then obtain j where j: "k \<le> j" "j \<le> MAX_SERVICES" "key = of_nat j" "m (of_nat j) = Some svc"
          "service_matches svc dst_ip dst_port proto"
          "\<forall>i. k \<le> i \<and> i < j \<longrightarrow>
               (\<forall>s'. m (of_nat i) = Some s' \<longrightarrow> \<not> service_matches s' dst_ip dst_port proto)"
          by blast
        have "j \<noteq> k" using j(4) None by auto
        then have "k + 1 \<le> j" using j(1) by arith
        moreover have "\<forall>i. k + 1 \<le> i \<and> i < j \<longrightarrow>
               (\<forall>s'. m (of_nat i) = Some s' \<longrightarrow> \<not> service_matches s' dst_ip dst_port proto)"
        proof (intro allI impI)
          fix i s' assume i: "k + 1 \<le> i \<and> i < j" and s': "m (of_nat i) = Some s'"
          from i have "k \<le> i \<and> i < j" by arith
          then show "\<not> service_matches s' dst_ip dst_port proto" using j(6) s' by blast
        qed
        ultimately show "?Q (k + 1)" using j(2,3,4,5) by blast
      next
        assume "?Q (k + 1)"
        then obtain j where j: "k + 1 \<le> j" "j \<le> MAX_SERVICES" "key = of_nat j" "m (of_nat j) = Some svc"
          "service_matches svc dst_ip dst_port proto"
          "\<forall>i. k + 1 \<le> i \<and> i < j \<longrightarrow>
               (\<forall>s'. m (of_nat i) = Some s' \<longrightarrow> \<not> service_matches s' dst_ip dst_port proto)"
          by blast
        have "\<forall>i. k \<le> i \<and> i < j \<longrightarrow>
               (\<forall>s'. m (of_nat i) = Some s' \<longrightarrow> \<not> service_matches s' dst_ip dst_port proto)"
        proof (intro allI impI)
          fix i s' assume i: "k \<le> i \<and> i < j" and s': "m (of_nat i) = Some s'"
          have "i \<noteq> k" using s' None by auto
          then have "k + 1 \<le> i \<and> i < j" using i by arith
          then show "\<not> service_matches s' dst_ip dst_port proto" using j(6) s' by blast
        qed
        then show "?Q k" using j by (intro exI [of _ j]) auto
      qed
      then show ?thesis
        using True None "1.IH"(1) [OF True None]
        by (subst find_service_from.simps) simp
    next
      case (Some s0)
      show ?thesis
      proof (cases "service_matches s0 dst_ip dst_port proto")
        case m: True
        have "?Q k \<longleftrightarrow> key = of_nat k \<and> svc = s0"
        proof
          assume "?Q k"
          then obtain j where j: "k \<le> j" "j \<le> MAX_SERVICES" "key = of_nat j" "m (of_nat j) = Some svc"
            "\<forall>i. k \<le> i \<and> i < j \<longrightarrow>
               (\<forall>s'. m (of_nat i) = Some s' \<longrightarrow> \<not> service_matches s' dst_ip dst_port proto)"
            by blast
          have "\<not> k < j" using j(5) Some m by auto
          then have "j = k" using j(1) by arith
          then show "key = of_nat k \<and> svc = s0" using j Some by auto
        next
          assume "key = of_nat k \<and> svc = s0"
          then show "?Q k" using True Some m by (intro exI [of _ k]) auto
        qed
        then show ?thesis
          using True Some m
          by (subst find_service_from.simps) auto
      next
        case nm: False
        have "?Q k \<longleftrightarrow> ?Q (k + 1)"
        proof
          assume "?Q k"
          then obtain j where j: "k \<le> j" "j \<le> MAX_SERVICES" "key = of_nat j" "m (of_nat j) = Some svc"
            "service_matches svc dst_ip dst_port proto"
            "\<forall>i. k \<le> i \<and> i < j \<longrightarrow>
               (\<forall>s'. m (of_nat i) = Some s' \<longrightarrow> \<not> service_matches s' dst_ip dst_port proto)"
            by blast
          have "j \<noteq> k" using j(4,5) Some nm by auto
          then have "k + 1 \<le> j" using j(1) by arith
          moreover have "\<forall>i. k + 1 \<le> i \<and> i < j \<longrightarrow>
               (\<forall>s'. m (of_nat i) = Some s' \<longrightarrow> \<not> service_matches s' dst_ip dst_port proto)"
        proof (intro allI impI)
          fix i s' assume i: "k + 1 \<le> i \<and> i < j" and s': "m (of_nat i) = Some s'"
          from i have "k \<le> i \<and> i < j" by arith
          then show "\<not> service_matches s' dst_ip dst_port proto" using j(6) s' by blast
        qed
        ultimately show "?Q (k + 1)" using j(2,3,4,5) by blast
        next
          assume "?Q (k + 1)"
          then obtain j where j: "k + 1 \<le> j" "j \<le> MAX_SERVICES" "key = of_nat j" "m (of_nat j) = Some svc"
            "service_matches svc dst_ip dst_port proto"
            "\<forall>i. k + 1 \<le> i \<and> i < j \<longrightarrow>
               (\<forall>s'. m (of_nat i) = Some s' \<longrightarrow> \<not> service_matches s' dst_ip dst_port proto)"
            by blast
          have "\<forall>i. k \<le> i \<and> i < j \<longrightarrow>
               (\<forall>s'. m (of_nat i) = Some s' \<longrightarrow> \<not> service_matches s' dst_ip dst_port proto)"
          proof (intro allI impI)
            fix i s' assume i: "k \<le> i \<and> i < j" and s': "m (of_nat i) = Some s'"
            show "\<not> service_matches s' dst_ip dst_port proto"
            proof (cases "i = k")
              case True
              then show ?thesis using s' Some nm by auto
            next
              case False
              then have "k + 1 \<le> i \<and> i < j" using i by arith
              then show ?thesis using j(6) s' by blast
            qed
          qed
          then show "?Q k" using j by (intro exI [of _ j]) auto
        qed
        then show ?thesis
          using True Some nm "1.IH"(2) [OF True Some nm]
          by (subst find_service_from.simps) simp
      qed
    qed
  qed
qed

text \<open>
  C8 (as amended). The scan of \<^verbatim>\<open>process_packet\<close> visits the keys 1 to \<^verbatim>\<open>MAX_SERVICES\<close>
  (1024) in ascending order. It ends with a service exactly when that service is stored under
  a key in this range, its \<^verbatim>\<open>ip_addr\<close> equals \<^verbatim>\<open>dst_ip\<close>, \<^verbatim>\<open>dst_port\<close> lies in
  \<^verbatim>\<open>[port_start, port_end]\<close>, its protocol is 0 or the packet's, and no smaller key of the
  range holds a service that satisfies this; it ends without a service exactly when no key
  of the range holds such a service.
\<close>

theorem find_service_first_match_in_range:
  "(find_service m dst_ip dst_port proto = Some (key, svc) \<longleftrightarrow>
      (\<exists>j. 1 \<le> j \<and> j \<le> MAX_SERVICES \<and> key = of_nat j \<and> m (of_nat j) = Some svc
          \<and> svc_ip_addr svc = dst_ip \<and> svc_port_start svc \<le> dst_port
          \<and> dst_port \<le> svc_port_end svc \<and> (svc_protocol svc = 0 \<or> svc_protocol svc = proto)
          \<and> (\<forall>i. 1 \<le> i \<and> i < j \<longrightarrow>
                (\<forall>s'. m (of_nat i) = Some s' \<longrightarrow> \<not> service_matches s' dst_ip dst_port proto))))
   \<and> (find_service m dst_ip dst_port proto = None \<longleftrightarrow>
        (\<forall>j. 1 \<le> j \<and> j \<le> MAX_SERVICES \<longrightarrow>
           (\<forall>s'. m (of_nat j) = Some s' \<longrightarrow> \<not> service_matches s' dst_ip dst_port proto)))"
proof -
  have a: "service_matches svc dst_ip dst_port proto \<longleftrightarrow>
             svc_ip_addr svc = dst_ip \<and> svc_port_start svc \<le> dst_port
             \<and> dst_port \<le> svc_port_end svc \<and> (svc_protocol svc = 0 \<or> svc_protocol svc = proto)"
    by (simp add: service_matches_def)
  show ?thesis
    unfolding find_service_def find_service_from_Some find_service_from_None
    by (simp add: a)
qed

lemma small_key_neq: "j \<le> MAX_SERVICES \<Longrightarrow> (of_nat j :: u32) \<noteq> 1025"
proof
  assume j: "j \<le> MAX_SERVICES" and e: "(of_nat j :: u32) = 1025"
  have "unat (of_nat j :: u32) = j"
    using j by (simp add: unat_of_nat MAX_SERVICES_def)
  then show False using e j by (simp add: MAX_SERVICES_def)
qed

theorem find_service_misses_key_1025:
  "[1025 \<mapsto> ex_service] 1025 = Some ex_service
   \<and> svc_ip_addr ex_service = 0x0500000A
   \<and> svc_port_start ex_service \<le> 80 \<and> 80 \<le> svc_port_end ex_service
   \<and> svc_protocol ex_service = 6
   \<and> find_service [1025 \<mapsto> ex_service] 0x0500000A 80 6 = None"
proof -
  have "find_service [1025 \<mapsto> ex_service] 0x0500000A 80 6 = None"
    unfolding find_service_def find_service_from_None
    using small_key_neq by auto
  then show ?thesis by (simp add: ex_service_def)
qed

theorem find_service_first_match_in_range_witness:
  "find_service [1 \<mapsto> ex_service_other, 2 \<mapsto> ex_service, 3 \<mapsto> ex_service_auth] 0x0500000A 80 6
     = Some (2, ex_service)"
proof -
  let ?m = "[1 \<mapsto> ex_service_other, 2 \<mapsto> ex_service, 3 \<mapsto> ex_service_auth] :: u32 \<rightharpoonup> service"
  have nm: "\<not> service_matches ex_service_other 0x0500000A 80 6"
    by (simp add: service_matches_def ex_service_other_def ex_service_def)
  have first: "\<forall>i. 1 \<le> i \<and> i < 2 \<longrightarrow>
           (\<forall>s'. ?m (of_nat i) = Some s' \<longrightarrow> \<not> service_matches s' 0x0500000A 80 6)"
  proof (intro allI impI)
    fix i :: nat and s' assume i: "1 \<le> i \<and> i < 2" and s: "?m (of_nat i) = Some s'"
    from i have "i = 1" by arith
    then show "\<not> service_matches s' 0x0500000A 80 6" using s nm by simp
  qed
  have "\<exists>j. 1 \<le> j \<and> j \<le> MAX_SERVICES \<and> (2 :: u32) = of_nat j \<and> ?m (of_nat j) = Some ex_service
          \<and> svc_ip_addr ex_service = 0x0500000A \<and> svc_port_start ex_service \<le> 80
          \<and> 80 \<le> svc_port_end ex_service \<and> (svc_protocol ex_service = 0 \<or> svc_protocol ex_service = 6)
          \<and> (\<forall>i. 1 \<le> i \<and> i < j \<longrightarrow>
                (\<forall>s'. ?m (of_nat i) = Some s' \<longrightarrow> \<not> service_matches s' 0x0500000A 80 6))"
    using first by (intro exI [of _ 2]) (simp add: MAX_SERVICES_def ex_service_def)
  then show ?thesis
    using find_service_first_match_in_range [of ?m "0x0500000A" 80 6 2 ex_service]
    by blast
qed

subsection \<open>C6: the TLS checks\<close>

text \<open>
  C6 (as amended). \<^verbatim>\<open>detect_tls\<close> of envoy\_xdp.c classifies a payload prefix as TLS exactly
  when at least 3 payload bytes are available, byte 0 is 0x16 or 0x17, byte 1 is 0x03 and
  byte 2 lies in 0x01 to 0x04. The check inside \<^verbatim>\<open>needs_complex_processing\<close> of
  enhanced\_rules.c is another one: for a service without TLS, WebSocket or complex
  authentication and a TCP packet with complete headers to a port other than 443, the
  function returns 1 exactly when at least 6 payload bytes are available and either byte 0 is
  0x16 and byte 1 is 0x03 (the TLS test: 0x17 and byte 2 are not examined) or the payload
  starts with \<^verbatim>\<open>GET\<close>. With fewer bytes than a check needs, the check gives its negative
  answer 0; there is no separate value for unknown.
\<close>

theorem tls_checks:
  "(detect_tls p payload \<longleftrightarrow>
      payload + 3 \<le> length p \<and> (p ! payload = 0x16 \<or> p ! payload = 0x17)
        \<and> p ! (payload + 1) = 0x03 \<and> 0x01 \<le> p ! (payload + 2) \<and> p ! (payload + 2) \<le> 0x04)
   \<and> (svc_requires_tls svc = 0 \<and> svc_allows_websocket svc = 0
        \<and> svc_auth_type svc \<noteq> AUTH_COMPLEX
        \<and> ETH_HLEN + IPHDR_SIZE \<le> length p \<and> eth_h_proto p = ETH_P_IP
        \<and> ip_protocol p ETH_HLEN = PROTO_TCP
        \<and> tcp = ETH_HLEN + unat (ip_ihl p ETH_HLEN) * 4 \<and> tcp + TCPHDR_SIZE \<le> length p
        \<and> l4_dest p tcp \<noteq> 443 \<and> pl = tcp + unat (tcp_doff p tcp) * 4 \<longrightarrow>
        (needs_complex_processing p (Some svc) \<longleftrightarrow>
           pl + 6 \<le> length p
           \<and> ((p ! pl = 0x16 \<and> p ! (pl + 1) = 0x03)
                \<or> (p ! pl = 0x47 \<and> p ! (pl + 1) = 0x45 \<and> p ! (pl + 2) = 0x54))))"
  by (auto simp: detect_tls_def needs_complex_processing_def Let_def ETH_HLEN_def IPHDR_SIZE_def)

theorem tls_checks_witness:
  "detect_tls ex_tls_handshake 54 \<and> needs_complex_processing ex_tls_handshake (Some ex_service)"
proof -
  have hyps: "svc_requires_tls ex_service = 0 \<and> svc_allows_websocket ex_service = 0
        \<and> svc_auth_type ex_service \<noteq> AUTH_COMPLEX
        \<and> ETH_HLEN + IPHDR_SIZE \<le> length ex_tls_handshake
        \<and> eth_h_proto ex_tls_handshake = ETH_P_IP
        \<and> ip_protocol ex_tls_handshake ETH_HLEN = PROTO_TCP
        \<and> (34 :: nat) = ETH_HLEN + unat (ip_ihl ex_tls_handshake ETH_HLEN) * 4
        \<and> 34 + TCPHDR_SIZE \<le> length ex_tls_handshake
        \<and> l4_dest ex_tls_handshake 34 \<noteq> 443
        \<and> (54 :: nat) = 34 + unat (tcp_doff ex_tls_handshake 34) * 4"
    by code_simp
  have d: "54 + 3 \<le> length ex_tls_handshake
        \<and> (ex_tls_handshake ! 54 = 0x16 \<or> ex_tls_handshake ! 54 = 0x17)
        \<and> ex_tls_handshake ! (54 + 1) = 0x03 \<and> 0x01 \<le> ex_tls_handshake ! (54 + 2)
        \<and> ex_tls_handshake ! (54 + 2) \<le> 0x04"
    by code_simp
  have n: "54 + 6 \<le> length ex_tls_handshake
        \<and> ex_tls_handshake ! 54 = 0x16 \<and> ex_tls_handshake ! (54 + 1) = 0x03"
    by code_simp
  show ?thesis
    using tls_checks [of ex_tls_handshake 54 ex_service 34 54] hyps d n by blast
qed

text \<open>
  The claim as stated fails on the code: the cited check does not flag the application-data
  record header 0x17 0x03 0x03, it flags 0x16 0x03 0x09 (byte 2 outside 1 to 4), and with two
  or five payload bytes the checks return 0, the value they return for a payload that is not
  TLS.
\<close>

theorem tls_checks_differ_from_claim:
  "needs_complex_processing ex_tls_appdata (Some ex_service) = False
   \<and> needs_complex_processing ex_tls_like (Some ex_service) = True
   \<and> detect_tls (ex_ipv4_tcp @ [0x16, 0x03]) 54 = False
   \<and> needs_complex_processing (ex_ipv4_tcp @ [0x16, 0x03, 0x03, 0, 0x20]) (Some ex_service)
       = False"
  by code_simp

subsection \<open>C2: the token bucket of \<^verbatim>\<open>check_rate_limit\<close>\<close>

lemma unat_ucast_32_64: "unat (ucast (x :: u32) :: u64) = unat x"
  by (simp add: unsigned_ucast_eq take_bit_nat_eq_self unsigned_less [THEN less_trans])

lemma unat_ucast_64_32: "unat (y :: u64) < 2 ^ 32 \<Longrightarrow> unat (ucast y :: u32) = unat y"
  by (simp add: unsigned_ucast_eq take_bit_nat_eq_self)

lemma tokens_to_add_nat:
  assumes "unat dt * unat L < 2 ^ 64" and "unat dt * unat L div 1000000000 < 2 ^ 32"
  shows "unat (tokens_to_add L dt) = unat dt * unat L div 1000000000"
proof -
  have m: "unat (dt * ucast L) = unat dt * unat L"
    using assms(1) unat_mult_lem [of dt "ucast L :: u64"] by (simp add: unat_ucast_32_64)
  have d: "unat ((dt * ucast L) div 1000000000) = unat dt * unat L div 1000000000"
    by (simp add: unat_div m)
  show ?thesis
    unfolding tokens_to_add_def using assms(2) d by (simp add: unat_ucast_64_32)
qed

lemma refill_le: "rle_tokens e \<le> L \<Longrightarrow> rle_tokens (refill L now e) \<le> L"
  by (auto simp: refill_def Let_def not_less)

lemma refill_nat:
  assumes le: "rle_tokens e \<le> L"
      and nomul: "unat (now - rle_last_update e) * unat L < 2 ^ 64"
      and nosum: "unat (rle_tokens e) + unat (now - rle_last_update e) * unat L div 1000000000 < 2 ^ 32"
  shows "unat (rle_tokens (refill L now e)) =
           min (unat L) (unat (rle_tokens e) + unat (now - rle_last_update e) * unat L div 1000000000)"
proof -
  let ?dt = "now - rle_last_update e"
  have q: "unat ?dt * unat L div 1000000000 < 2 ^ 32" using nosum by arith
  have a: "unat (tokens_to_add L ?dt) = unat ?dt * unat L div 1000000000"
    using tokens_to_add_nat [OF nomul q] .
  have s: "unat (rle_tokens e + tokens_to_add L ?dt) = unat (rle_tokens e) + unat ?dt * unat L div 1000000000"
    using nosum a unat_add_lem [of "rle_tokens e" "tokens_to_add L ?dt"] by simp
  have le': "unat (rle_tokens e) \<le> unat L" using le by (simp add: word_le_nat_alt)
  show ?thesis
  proof (cases "tokens_to_add L ?dt > 0")
    case True
    then show ?thesis
      using s by (auto simp: refill_def Let_def word_less_nat_alt min_def)
  next
    case False
    then have "unat (tokens_to_add L ?dt) = 0" by (simp add: word_less_nat_alt)
    then show ?thesis
      using False a le' by (simp add: refill_def min_def)
  qed
qed

lemma check_rate_limit_inv:
  assumes L: "0 < L" and inv: "\<forall>k e. m k = Some e \<longrightarrow> rle_tokens e \<le> L"
  shows "\<forall>k e. snd (check_rate_limit key L now m) k = Some e \<longrightarrow> rle_tokens e \<le> L"
proof (cases "m key")
  case None
  have "L \<noteq> 0" using L by auto
  then have "unat (L - 1) = unat L - 1" by (rule unat_minus_one)
  then have "L - 1 \<le> L" by (simp add: word_le_nat_alt)
  then show ?thesis using None inv by (auto simp: check_rate_limit_def)
next
  case (Some entry)
  then have e: "rle_tokens entry \<le> L" using inv by blast
  note r = refill_le [OF e, of now]
  have dec: "rle_tokens (refill L now entry) - 1 \<le> L" if "0 < rle_tokens (refill L now entry)"
  proof -
    have "rle_tokens (refill L now entry) \<noteq> 0" using that by auto
    then have "unat (rle_tokens (refill L now entry) - 1) = unat (rle_tokens (refill L now entry)) - 1"
      by (rule unat_minus_one)
    then show ?thesis using r by (simp add: word_le_nat_alt)
  qed
  show ?thesis
    using Some inv r dec by (auto simp: check_rate_limit_def Let_def)
qed

lemma rate_limit_run_inv:
  assumes "0 < L" and "\<forall>k e. m k = Some e \<longrightarrow> rle_tokens e \<le> L"
  shows "\<forall>k e. rate_limit_run L ps m k = Some e \<longrightarrow> rle_tokens e \<le> L"
  using assms(2)
proof (induction ps arbitrary: m)
  case Nil
  then show ?case by simp
next
  case (Cons a ps)
  obtain key now where a: "a = (key, now)" by (cases a)
  have "\<forall>k e. snd (check_rate_limit key L now m) k = Some e \<longrightarrow> rle_tokens e \<le> L"
    using check_rate_limit_inv [OF assms(1) Cons.prems] by blast
  from Cons.IH [OF this] show ?case by (simp add: a)
qed

text \<open>
  C2 (as amended). For every sequence of packet-triggered updates made under one limit
  \<open>L > 0\<close> (\<^verbatim>\<open>rate_limit_pps\<close>; the caller skips the check for a zero limit), on buckets that do
  not exceed \<open>L\<close> beforehand (the empty map among them), no bucket ever holds more than \<open>L\<close>
  tokens: the capacity is the rate alone, \<^verbatim>\<open>check_rate_limit\<close> has no burst allowance. Each
  refill is the specification's refill for the capacity \<open>L\<close> (burst 0): it adds the elapsed
  nanoseconds times \<open>L\<close> divided by \<open>10^9\<close>, capped at \<open>L\<close>, as long as the 64-bit product and
  the 32-bit sum do not wrap around.
\<close>

theorem bucket_tokens_bounded_by_rate:
  assumes "0 < L"
  shows "((\<forall>k e. m k = Some e \<longrightarrow> rle_tokens e \<le> L) \<longrightarrow>
            (\<forall>k e. rate_limit_run L ps m k = Some e \<longrightarrow> rle_tokens e \<le> L))
       \<and> (rle_tokens e0 \<le> L \<and> unat (now - rle_last_update e0) * unat L < 2 ^ 64
            \<and> unat (rle_tokens e0) + unat (now - rle_last_update e0) * unat L div 1000000000
                 < 2 ^ 32 \<longrightarrow>
            unat (rle_tokens (refill L now e0)) =
              spec_refill (spec_capacity 0 (unat L)) (unat (rle_tokens e0))
                (unat (now - rle_last_update e0)) (unat L))"
  using rate_limit_run_inv [OF assms, of m ps] refill_nat [of e0 L now]
  by (simp add: spec_refill_def spec_capacity_def)

theorem bucket_tokens_bounded_by_rate_witness:
  "rate_limit_run 1000 [(7, 0), (7, 2000000000)] Map.empty 7
     = Some \<lparr>rle_key = 7, rle_last_update = 2000000000, rle_packet_count = 2,
             rle_byte_count = 0, rle_tokens = 999\<rparr>
   \<and> (999 :: u32) \<le> 1000
   \<and> unat (rle_tokens (refill 1000 2000000000 ex_bucket)) = 1000"
proof -
  have pos: "(0 :: u32) < 1000" by simp
  have run: "rate_limit_run 1000 [(7, 0), (7, 2000000000)] Map.empty 7
     = Some \<lparr>rle_key = 7, rle_last_update = 2000000000, rle_packet_count = 2,
             rle_byte_count = 0, rle_tokens = 999\<rparr>"
    by (simp add: check_rate_limit_def refill_def tokens_to_add_def Let_def word_less_nat_alt)
  have hyp: "rle_tokens ex_bucket \<le> 1000
       \<and> unat (2000000000 - rle_last_update ex_bucket) * unat (1000 :: u32) < 2 ^ 64
       \<and> unat (rle_tokens ex_bucket)
            + unat (2000000000 - rle_last_update ex_bucket) * unat (1000 :: u32) div 1000000000
          < 2 ^ 32"
    by (simp add: ex_bucket_def)
  note t = bucket_tokens_bounded_by_rate
             [OF pos, where m=Map.empty and ps="[(7, 0), (7, 2000000000)]" and ?e0.0=ex_bucket
                and now=2000000000]
  have inv0: "\<forall>k e. (Map.empty :: u32 \<rightharpoonup> rate_limit_entry) k = Some e \<longrightarrow> rle_tokens e \<le> 1000"
    by simp
  have "rle_tokens \<lparr>rle_key = 7, rle_last_update = 2000000000, rle_packet_count = 2,
             rle_byte_count = 0, rle_tokens = 999\<rparr> \<le> (1000 :: u32)"
    using t inv0 run by blast
  then have a: "(999 :: u32) \<le> 1000" by simp
  have b: "unat (rle_tokens (refill 1000 2000000000 ex_bucket)) = 1000"
    using t hyp by (simp add: spec_refill_def spec_capacity_def ex_bucket_def)
  show ?thesis using run a b by blast
qed

text \<open>
  The claim as stated fails on the code. With the specification's example (rate 1000, burst
  100) an exhausted bucket that has been idle for two seconds is refilled to 1000 tokens, not
  to the 1100 of the capacity burst plus rate. And the bucket of a source is shared by all
  services: a bucket created under the limit 1000 and then used under the limit 10 holds 998
  tokens, more than that limit.
\<close>

theorem bucket_cap_is_rate_not_burst_plus_rate:
  "unat (rle_tokens (refill 1000 2000000000 ex_bucket)) = 1000
   \<and> spec_refill (spec_capacity 100 1000) (unat (rle_tokens ex_bucket))
        (unat (2000000000 - rle_last_update ex_bucket)) 1000 = 1100
   \<and> map_option rle_tokens
        (snd (check_rate_limit 7 10 5 (snd (check_rate_limit 7 1000 5 Map.empty))) 7)
       = Some 998"
  by (simp add: check_rate_limit_def refill_def tokens_to_add_def Let_def word_less_nat_alt
        spec_refill_def spec_capacity_def ex_bucket_def)

subsection \<open>C5: the authentication fast path\<close>

text \<open>
  C5 (as amended). \<^verbatim>\<open>check_authentication\<close> decides by the token table only for an IPv4 TCP
  packet with complete headers and at least 32 payload bytes. There, if the scan finds no
  \<^verbatim>\<open>Auth\<close> the packet is rejected; if it finds one at index \<open>i\<close> and the token word at payload
  offset \<open>i + 20\<close> lies inside the packet, the packet is accepted if and only if that word is
  non-zero, it is a key of the token table, the token is not expired (\<open>now \<le> expiry_time\<close>)
  and the token's \<^verbatim>\<open>service_id\<close> is 0 or the key of the requesting service. A packet that
  is not IPv4, not TCP, or has fewer than 32 payload bytes is accepted without any lookup.
\<close>

theorem auth_check_decision:
  "(ETH_HLEN \<le> length p \<and> eth_h_proto p \<noteq> ETH_P_IP \<longrightarrow>
      check_authentication p service_id now tokens = Some True)
   \<and> (ETH_HLEN + IPHDR_SIZE \<le> length p \<and> eth_h_proto p = ETH_P_IP \<longrightarrow>
        (ip_protocol p ETH_HLEN \<noteq> PROTO_TCP \<longrightarrow>
           check_authentication p service_id now tokens = Some True)
        \<and> (ip_protocol p ETH_HLEN = PROTO_TCP
             \<and> tcp = ETH_HLEN + unat (ip_ihl p ETH_HLEN) * 4 \<and> tcp + TCPHDR_SIZE \<le> length p
             \<and> pl = tcp + unat (tcp_doff p tcp) * 4 \<longrightarrow>
             (pl + 32 > length p \<longrightarrow> check_authentication p service_id now tokens = Some True)
             \<and> (pl + 32 \<le> length p \<longrightarrow>
                  (scan_auth p pl 0 = None \<longrightarrow>
                     check_authentication p service_id now tokens = Some False)
                  \<and> (\<forall>i. scan_auth p pl 0 = Some i \<and> pl + i + 24 \<le> length p \<longrightarrow>
                        check_authentication p service_id now tokens =
                          Some (load32 p (pl + i + 20) \<noteq> 0
                                \<and> (\<exists>token. tokens (load32 p (pl + i + 20)) = Some token
                                      \<and> now \<le> tok_expiry_time token
                                      \<and> (tok_service_id token = 0
                                           \<or> tok_service_id token = service_id)))))))"
  by (auto simp: check_authentication_def Let_def ETH_HLEN_def IPHDR_SIZE_def
           split: option.splits)

theorem auth_check_decision_witness:
  "check_authentication ex_auth 1 500 ex_tokens = Some True
   \<and> check_authentication ex_auth 1 1500 ex_tokens = Some False"
proof -
  have h1: "ETH_HLEN + IPHDR_SIZE \<le> length ex_auth \<and> eth_h_proto ex_auth = ETH_P_IP"
    by code_simp
  have h2: "ip_protocol ex_auth ETH_HLEN = PROTO_TCP
        \<and> (34 :: nat) = ETH_HLEN + unat (ip_ihl ex_auth ETH_HLEN) * 4
        \<and> 34 + TCPHDR_SIZE \<le> length ex_auth
        \<and> (54 :: nat) = 34 + unat (tcp_doff ex_auth 34) * 4"
    by code_simp
  have h3: "54 + 32 \<le> length ex_auth" by code_simp
  have h4: "scan_auth ex_auth 54 0 = Some 0 \<and> 54 + 0 + 24 \<le> length ex_auth" by code_simp
  have h5: "load32 ex_auth 74 = 0xDEADBEEF" by code_simp
  have h6: "ex_tokens 0xDEADBEEF
              = Some \<lparr>tok_token_hash = 0xDEADBEEF, tok_service_id = 0, tok_expiry_time = 1000,
                      tok_permissions = 1\<rparr>"
    by (simp add: ex_tokens_def)
  have a: "check_authentication ex_auth 1 now ex_tokens =
             Some (load32 ex_auth (54 + 0 + 20) \<noteq> 0
                   \<and> (\<exists>token. ex_tokens (load32 ex_auth (54 + 0 + 20)) = Some token
                         \<and> now \<le> tok_expiry_time token
                         \<and> (tok_service_id token = 0 \<or> tok_service_id token = 1)))" for now
    using auth_check_decision [of ex_auth 1 now ex_tokens 34 54] h1 h2 h3 h4 by blast
  have le: "(500 :: u64) \<le> 1000" "\<not> (1500 :: u64) \<le> 1000"
    by (simp_all add: word_le_nat_alt)
  have b: "check_authentication ex_auth 1 now ex_tokens = Some (now \<le> 1000)" for now
    using a [of now] by (simp add: h5 h6)
  show ?thesis
    using b [of 500] b [of 1500] le by simp
qed

text \<open>
  The claim as stated fails on the code: the frame \<open>ex_ipv4_tcp\<close> has no payload and so no
  token, and the token table is empty, yet the checker accepts it.
\<close>

theorem auth_check_accepts_without_token:
  "check_authentication ex_ipv4_tcp 1 500 Map.empty = Some True"
  by code_simp

subsection \<open>C4: which packets touch the connection table\<close>







subsection \<open>C1: packets shorter than their headers\<close>














end
